theory Spec2Isabelle
  imports Main "HOL-Library.Multiset"
begin

section \<open>Data model\<close>

text \<open>
  The \<^verbatim>\<open>Ticket\<close> type of \<^verbatim>\<open>src/lib/ticketsApi.ts\<close> and the \<^verbatim>\<open>Vote\<close> type of
  \<^verbatim>\<open>src/lib/votesApi.ts\<close>. Field names carry the prefix \<open>t_\<close> or \<open>v_\<close>, since both
  types have an \<^verbatim>\<open>id\<close>. An optional field (\<^verbatim>\<open>content?: string\<close>) is an option; a row
  whose column holds \<^verbatim>\<open>null\<close> reads as \<open>None\<close> too.
\<close>

record Ticket =
  t_id :: string
  t_title :: string
  t_column :: string
  t_order :: int
  t_rowSpan :: "int option"
  t_colSpan :: "int option"
  t_content :: "string option"

record Vote =
  v_id :: string
  v_ticket_id :: string
  v_voter_id :: string

text \<open>
  The remote operations the page issues, in the order it issues them. The log is ghost
  state: the code keeps no such list, it is what "performs no remote write" and "a
  fetchTickets call occurs" are stated about.
\<close>

datatype remote_call =
    FetchTickets
  | InsertTicket string string string int
  | UpdateTicket string string "string option"
  | DeleteTicket string
  | FetchVotes
  | AddVote string string
  | RemoveVote string string

text \<open>
  The page component (\<^verbatim>\<open>src/unnamed/part_001\<close>; \<^verbatim>\<open>src/routes/+page.svelte\<close> is the same
  component without the votes) keeps its view model in module-level variables. The record
  holds them, followed by the parts of the world the handlers touch: the browser
  (\<^verbatim>\<open>window\<close>, \<^verbatim>\<open>localStorage\<close>, the number of \<^verbatim>\<open>crypto.randomUUID()\<close> draws so far), the
  backend's votes table, and the log of remote calls.

  \<open>editingContent\<close> is declared a string in the source but is assigned
  \<^verbatim>\<open>data[0].content\<close> unguarded, so it can hold \<^verbatim>\<open>null\<close>: it is an option here.
  \<^verbatim>\<open>Record<string, Ticket[]>\<close> is a map from own keys to buckets. The handlers index it
  with a column title of the page or with the column of a ticket shown in a bucket. A key
  that comes from a fetched row is looked up as JavaScript does, inherited properties
  included: see \<open>group_step\<close>.
\<close>

record board =
  ticketsByColumn :: "string \<rightharpoonup> Ticket list"
  loading :: bool
  error :: "string option"
  votes :: "Vote list"
  editingTicketId :: "string option"
  editingTitle :: string
  editingContent :: "string option"
  window_defined :: bool
  localStorage :: "string \<rightharpoonup> string"
  uuid_draws :: nat
  votes_table :: "Vote list"
  calls :: "remote_call list"

datatype js_error = TypeError

section \<open>JavaScript idioms\<close>

text \<open>\<^verbatim>\<open>!x\<close> for \<^verbatim>\<open>x: string | null\<close>: \<^verbatim>\<open>null\<close> and the empty string are falsy.\<close>

definition truthy :: "string option \<Rightarrow> bool" where
  "truthy x = (case x of None \<Rightarrow> False | Some v \<Rightarrow> v \<noteq> [])"

text \<open>\<^verbatim>\<open>a || d\<close> on strings.\<close>

definition or_else :: "string \<Rightarrow> string \<Rightarrow> string" where
  "or_else a d = (if a = [] then d else a)"

text \<open>\<^verbatim>\<open>ticket.content || ''\<close>.\<close>

definition content_or_empty :: "Ticket \<Rightarrow> string" where
  "content_or_empty ticket = (case t_content ticket of None \<Rightarrow> [] | Some c \<Rightarrow> or_else c [])"

text \<open>
  An object literal \<^verbatim>\<open>{}\<close> inherits the properties of \<^verbatim>\<open>Object.prototype\<close>. Reading
  \<^verbatim>\<open>obj[k]\<close> for one of these names, when \<open>k\<close> is not an own key, gives a function (for
  \<^verbatim>\<open>__proto__\<close> the prototype object): a truthy value that has no \<^verbatim>\<open>push\<close>.
\<close>

definition object_prototype_names :: "string list" where
  "object_prototype_names =
     [''constructor'', ''__proto__'', ''hasOwnProperty'', ''isPrototypeOf'',
      ''propertyIsEnumerable'', ''toLocaleString'', ''toString'', ''valueOf'',
      ''__defineGetter__'', ''__defineSetter__'', ''__lookupGetter__'', ''__lookupSetter__'']"

definition inherited_name :: "string \<Rightarrow> bool" where
  "inherited_name k = (k \<in> set object_prototype_names)"

text \<open>
  The message of the \<^verbatim>\<open>TypeError\<close> raised by a call whose callee is not a function, as
  V8 and SpiderMonkey word it.
\<close>

definition not_a_function :: "string \<Rightarrow> string" where
  "not_a_function callee = callee @ '' is not a function''"

text \<open>
  \<^verbatim>\<open>Array.prototype.sort(cmp)\<close>: a stable sort (ECMAScript 2019), here by insertion. An
  element goes before the first one it does not compare greater than.
\<close>

fun insert_sorted :: "('a \<Rightarrow> 'a \<Rightarrow> int) \<Rightarrow> 'a \<Rightarrow> 'a list \<Rightarrow> 'a list" where
  "insert_sorted cmp x [] = [x]"
| "insert_sorted cmp x (y # ys) =
     (if cmp x y \<le> 0 then x # y # ys else y # insert_sorted cmp x ys)"

fun array_sort :: "('a \<Rightarrow> 'a \<Rightarrow> int) \<Rightarrow> 'a list \<Rightarrow> 'a list" where
  "array_sort cmp [] = []"
| "array_sort cmp (x # xs) = insert_sorted cmp x (array_sort cmp xs)"

section \<open>Identity provider\<close>

text \<open>
  \<^verbatim>\<open>generateUniqueId\<close> (\<^verbatim>\<open>src/unnamed/part_002\<close>) returns \<^verbatim>\<open>crypto.randomUUID()\<close>. The
  generator is a parameter: \<open>gen n\<close> is what the \<open>n\<close>-th draw returns.
\<close>

definition generateUniqueId :: "(nat \<Rightarrow> string) \<Rightarrow> board \<Rightarrow> string \<times> board" where
  "generateUniqueId gen s = (gen (uuid_draws s), s\<lparr>uuid_draws := Suc (uuid_draws s)\<rparr>)"

definition create_voter_id :: "(nat \<Rightarrow> string) \<Rightarrow> board \<Rightarrow> string \<times> board" where
  "create_voter_id gen s =
     (case generateUniqueId gen s of
        (i, s1) \<Rightarrow> (i, s1\<lparr>localStorage := (localStorage s1)(''voter_id'' \<mapsto> i)\<rparr>))"

definition getOrCreateVoterId :: "(nat \<Rightarrow> string) \<Rightarrow> board \<Rightarrow> string \<times> board" where
  "getOrCreateVoterId gen s =
     (case localStorage s ''voter_id'' of
        None \<Rightarrow> create_voter_id gen s
      | Some i \<Rightarrow> if i = [] then create_voter_id gen s else (i, s))"

text \<open>
  \<^verbatim>\<open>getCurrentVoterId\<close> (\<^verbatim>\<open>part_001\<close>, lines 18-30) is the same code behind a test for
  \<^verbatim>\<open>window\<close>.
\<close>

definition getCurrentVoterId :: "(nat \<Rightarrow> string) \<Rightarrow> board \<Rightarrow> string \<times> board" where
  "getCurrentVoterId gen s =
     (if window_defined s then
        (case localStorage s ''voter_id'' of
           None \<Rightarrow> create_voter_id gen s
         | Some i \<Rightarrow> if i = [] then create_voter_id gen s else (i, s))
      else (''ssr-placeholder'', s))"

text \<open>A run of \<open>n\<close> calls of a getter, one after the other: the values returned, in order.\<close>

fun call_times :: "nat \<Rightarrow> (board \<Rightarrow> string \<times> board) \<Rightarrow> board \<Rightarrow> string list \<times> board" where
  "call_times 0 getter s = ([], s)"
| "call_times (Suc n) getter s =
     (case getter s of (i, s1) \<Rightarrow>
        (case call_times n getter s1 of (ids, s2) \<Rightarrow> (i # ids, s2)))"

section \<open>Ticket repository\<close>

text \<open>
  \<^verbatim>\<open>fetchTickets\<close> (\<^verbatim>\<open>src/lib/ticketsApi.ts\<close>). The answer of the remote read is a
  parameter: \<open>Inl m\<close> is an error with message \<open>m\<close>, \<open>Inr rows\<close> the rows as the backend
  returned them.

  The loop body is \<open>group_step\<close>. Line 24 gives the column an empty bucket when
  \<^verbatim>\<open>grouped[ticket.column]\<close> is falsy: when the column is neither an own key nor an
  inherited name. Line 25 reads \<^verbatim>\<open>grouped[ticket.column]\<close> again and calls \<^verbatim>\<open>push\<close> on it;
  what it finds is a bucket, or else an inherited value, and then the call throws.
\<close>

definition group_step ::
  "(string \<rightharpoonup> Ticket list) \<Rightarrow> Ticket \<Rightarrow> js_error + (string \<rightharpoonup> Ticket list)" where
  "group_step grouped ticket =
     (let g = (if grouped (t_column ticket) = None \<and> \<not> inherited_name (t_column ticket)
               then grouped(t_column ticket \<mapsto> []) else grouped)
      in case g (t_column ticket) of
           Some b \<Rightarrow> Inr (g(t_column ticket \<mapsto> b @ [ticket]))
         | None \<Rightarrow> Inl TypeError)"

fun group_loop ::
  "Ticket list \<Rightarrow> (string \<rightharpoonup> Ticket list) \<Rightarrow> js_error + (string \<rightharpoonup> Ticket list)" where
  "group_loop [] grouped = Inr grouped"
| "group_loop (ticket # rest) grouped =
     (case group_step grouped ticket of
        Inl e \<Rightarrow> Inl e
      | Inr g \<Rightarrow> group_loop rest g)"

text \<open>
  What \<open>fetchTickets\<close> throws: the error the client reported (line 19), or the exception
  raised in the loop.
\<close>

datatype thrown = Rejected string | Raised js_error

definition fetchTickets :: "string + Ticket list \<Rightarrow> thrown + (string \<rightharpoonup> Ticket list)" where
  "fetchTickets response =
     (case response of
        Inl m \<Rightarrow> Inl (Rejected m)
      | Inr rows \<Rightarrow>
          (case group_loop rows Map.empty of
             Inl e \<Rightarrow> Inl (Raised e)
           | Inr grouped \<Rightarrow> Inr grouped))"

text \<open>\<^verbatim>\<open>(e as Error).message\<close> for what \<open>fetchTickets\<close> threw.\<close>

definition thrown_message :: "thrown \<Rightarrow> string" where
  "thrown_message e =
     (case e of
        Rejected m \<Rightarrow> m
      | Raised TypeError \<Rightarrow> not_a_function ''grouped[ticket.column].push'')"

section \<open>Vote repository\<close>

text \<open>
  \<^verbatim>\<open>src/lib/votesApi.ts\<close>. Each function builds one query and throws the error the
  client reports, if any. What the query does to the table is the backend's part: an
  insert adds one row (its id is the backend's choice, the parameter \<open>new_id\<close>), a delete
  with two \<^verbatim>\<open>eq\<close> filters removes every row that matches both, a select returns the rows.
  The parameter \<open>fault\<close> is the error the client reports (\<open>Some m\<close>, message \<open>m\<close>), in
  which case the table is as before.
\<close>

definition fetchVotes :: "string option \<Rightarrow> Vote list \<Rightarrow> string + Vote list" where
  "fetchVotes fault table = (case fault of Some m \<Rightarrow> Inl m | None \<Rightarrow> Inr table)"

definition addVote :: "string option \<Rightarrow> string \<Rightarrow> string \<Rightarrow> string \<Rightarrow> Vote list \<Rightarrow> string + Vote list" where
  "addVote fault new_id ticket_id voter_id table =
     (case fault of
        Some m \<Rightarrow> Inl m
      | None \<Rightarrow> Inr (table @ [\<lparr>v_id = new_id, v_ticket_id = ticket_id, v_voter_id = voter_id\<rparr>]))"

definition removeVote :: "string option \<Rightarrow> string \<Rightarrow> string \<Rightarrow> Vote list \<Rightarrow> string + Vote list" where
  "removeVote fault ticket_id voter_id table =
     (case fault of
        Some m \<Rightarrow> Inl m
      | None \<Rightarrow> Inr (filter (\<lambda>v. \<not> (v_ticket_id v = ticket_id \<and> v_voter_id v = voter_id)) table))"

section \<open>Board controller\<close>

text \<open>
  The handlers of the page component. An asynchronous handler is modelled from its call
  to the settling of its promise, its awaits included, with no other handler running in
  between. What the backend answers to each remote call is a parameter of the handler.
  A handler that can throw returns a sum, \<open>Inl\<close> the exception.
\<close>

subsection \<open>Votes\<close>

definition getVoteCount :: "board \<Rightarrow> Ticket \<Rightarrow> nat" where
  "getVoteCount s ticket = length (filter (\<lambda>v. v_ticket_id v = t_id ticket) (votes s))"

definition hasVoted :: "(nat \<Rightarrow> string) \<Rightarrow> Ticket \<Rightarrow> board \<Rightarrow> bool \<times> board" where
  "hasVoted gen ticket s =
     (case getCurrentVoterId gen s of
        (voterId, s1) \<Rightarrow>
          (list_ex (\<lambda>v. v_ticket_id v = t_id ticket \<and> v_voter_id v = voterId) (votes s1), s1))"

definition loadVotes :: "string option \<Rightarrow> board \<Rightarrow> board" where
  "loadVotes fault s =
     (let s1 = s\<lparr>calls := calls s @ [FetchVotes]\<rparr> in
      case fetchVotes fault (votes_table s1) of
        Inr newVotes \<Rightarrow> s1\<lparr>votes := newVotes\<rparr>
      | Inl m \<Rightarrow> s1\<lparr>error := Some (or_else m ''Failed to load votes.'')\<rparr>)"

text \<open>
  \<^verbatim>\<open>toggleVote\<close> (\<^verbatim>\<open>part_001\<close>, lines 41-58). \<open>wfault\<close> is the outcome of the write,
  \<open>new_id\<close> the id the backend gives an inserted row, \<open>rfault\<close> the outcome of the read
  that follows. \<open>hasVoted\<close> asks for the voter id again, as the source does.
\<close>

definition toggleVote ::
  "(nat \<Rightarrow> string) \<Rightarrow> string option \<Rightarrow> string \<Rightarrow> string option \<Rightarrow> Ticket \<Rightarrow> board \<Rightarrow> board" where
  "toggleVote gen wfault new_id rfault ticket s =
     (case getCurrentVoterId gen s of
        (voterId, s1) \<Rightarrow>
          (case hasVoted gen ticket s1 of
             (voted, s2) \<Rightarrow>
               if voted then
                 (let s3 = s2\<lparr>calls := calls s2 @ [RemoveVote (t_id ticket) voterId]\<rparr> in
                  case removeVote wfault (t_id ticket) voterId (votes_table s3) of
                    Inr table \<Rightarrow> loadVotes rfault (s3\<lparr>votes_table := table\<rparr>)
                  | Inl m \<Rightarrow> s3\<lparr>error := Some (or_else m ''Failed to remove vote.'')\<rparr>)
               else
                 (let s3 = s2\<lparr>calls := calls s2 @ [AddVote (t_id ticket) voterId]\<rparr> in
                  case addVote wfault new_id (t_id ticket) voterId (votes_table s3) of
                    Inr table \<Rightarrow> loadVotes rfault (s3\<lparr>votes_table := table\<rparr>)
                  | Inl m \<Rightarrow> s3\<lparr>error := Some (or_else m ''Failed to add vote.'')\<rparr>)))"

text \<open>How many rows of a votes list join a ticket id and a voter id.\<close>

definition votes_of :: "string \<Rightarrow> string \<Rightarrow> Vote list \<Rightarrow> nat" where
  "votes_of ticket_id voter_id vs =
     length (filter (\<lambda>v. v_ticket_id v = ticket_id \<and> v_voter_id v = voter_id) vs)"

subsection \<open>Tickets\<close>

text \<open>
  \<^verbatim>\<open>refreshTickets\<close> (\<^verbatim>\<open>part_001\<close>, lines 74-83). Its \<^verbatim>\<open>catch\<close> takes whatever
  \<open>fetchTickets\<close> threw, the exception of the grouping loop included.
\<close>

definition refreshTickets :: "string + Ticket list \<Rightarrow> board \<Rightarrow> board" where
  "refreshTickets response s =
     (let s1 = s\<lparr>loading := True, calls := calls s @ [FetchTickets]\<rparr> in
      case fetchTickets response of
        Inr grouped \<Rightarrow> s1\<lparr>ticketsByColumn := grouped, loading := False\<rparr>
      | Inl e \<Rightarrow>
          s1\<lparr>error := Some (or_else (thrown_message e) ''Failed to load tickets.''),
              loading := False\<rparr>)"

text \<open>
  \<^verbatim>\<open>handleInstantAddTicket\<close> (\<^verbatim>\<open>part_001\<close>, lines 86-110). \<open>new_order\<close> is
  \<^verbatim>\<open>(ticketsByColumn[columnTitle]?.length || 0) + 1\<close>. The answer of
  \<^verbatim>\<open>insert([...]).select()\<close> is a parameter: \<open>Inl m\<close> an error, \<open>Inr data\<close> the rows
  returned.
\<close>

definition new_order :: "board \<Rightarrow> string \<Rightarrow> int" where
  "new_order s columnTitle =
     (case ticketsByColumn s columnTitle of None \<Rightarrow> 0 | Some b \<Rightarrow> int (length b)) + 1"

definition handleInstantAddTicket :: "string + Ticket list \<Rightarrow> string \<Rightarrow> board \<Rightarrow> board" where
  "handleInstantAddTicket response columnTitle s =
     (let order = new_order s columnTitle;
          s1 = s\<lparr>calls := calls s @
                 [InsertTicket ''New Ticket'' ''Double-click to edit title and details''
                    columnTitle order]\<rparr>
      in case response of
           Inr (d0 # rest) \<Rightarrow>
             (let bucket = (case ticketsByColumn s1 columnTitle of None \<Rightarrow> [] | Some b \<Rightarrow> b)
              in s1\<lparr>ticketsByColumn := (ticketsByColumn s1)(columnTitle \<mapsto> bucket @ [d0]),
                     editingTicketId := Some (t_id d0),
                     editingTitle := t_title d0,
                     editingContent := t_content d0\<rparr>)
         | Inr [] \<Rightarrow> s1\<lparr>error := Some ''Failed to add ticket.''\<rparr>
         | Inl m \<Rightarrow> s1\<lparr>error := Some (or_else m ''Failed to add ticket.'')\<rparr>)"




text \<open>
  \<^verbatim>\<open>saveEdit\<close> (\<^verbatim>\<open>part_001\<close>, lines 130-152). \<open>upd\<close> is the error of the remote update
  (\<open>None\<close>: it succeeded), \<open>response\<close> the answer to the reload that follows a failed
  update. Indexing a bucket that does not exist throws.
\<close>

definition saveEdit ::
  "string option \<Rightarrow> string + Ticket list \<Rightarrow> Ticket \<Rightarrow> board \<Rightarrow> js_error + board" where
  "saveEdit upd response ticket s =
     (if \<not> truthy (editingTicketId s) then Inr s
      else if editingTitle s \<noteq> t_title ticket \<or>
              editingContent s \<noteq> Some (content_or_empty ticket) then
        (let updatedTicket = ticket\<lparr>t_title := editingTitle s, t_content := editingContent s\<rparr>
         in case ticketsByColumn s (t_column ticket) of
              None \<Rightarrow> Inl TypeError
            | Some b \<Rightarrow>
                (let s1 = s\<lparr>ticketsByColumn := (ticketsByColumn s)
                              (t_column ticket \<mapsto>
                                 map (\<lambda>t. if t_id t = t_id ticket then updatedTicket else t) b),
                            editingTicketId := None\<rparr>;
                     s2 = s1\<lparr>calls := calls s1 @
                            [UpdateTicket (t_id ticket) (editingTitle s1) (editingContent s1)]\<rparr>
                 in case upd of
                      None \<Rightarrow> Inr s2
                    | Some m \<Rightarrow> Inr (refreshTickets response (s2\<lparr>error := Some m\<rparr>))))
      else Inr (s\<lparr>editingTicketId := None\<rparr>))"

text \<open>
  \<^verbatim>\<open>removeTicket\<close> (\<^verbatim>\<open>part_001\<close>, lines 163-174): the assignment before the remote
  delete, then the delete (\<open>del\<close> its error) and the reload that follows a failed one.
\<close>

definition removeTicket_optimistic :: "Ticket \<Rightarrow> board \<Rightarrow> js_error + board" where
  "removeTicket_optimistic ticket s =
     (case ticketsByColumn s (t_column ticket) of
        None \<Rightarrow> Inl TypeError
      | Some b \<Rightarrow>
          Inr (s\<lparr>ticketsByColumn := (ticketsByColumn s)
                   (t_column ticket \<mapsto> filter (\<lambda>t. t_id t \<noteq> t_id ticket) b)\<rparr>))"

definition removeTicket ::
  "string option \<Rightarrow> string + Ticket list \<Rightarrow> Ticket \<Rightarrow> board \<Rightarrow> js_error + board" where
  "removeTicket del response ticket s =
     (case removeTicket_optimistic ticket s of
        Inl e \<Rightarrow> Inl e
      | Inr s1 \<Rightarrow>
          (let s2 = s1\<lparr>calls := calls s1 @ [DeleteTicket (t_id ticket)]\<rparr>
           in case del of
                None \<Rightarrow> Inr s2
              | Some m \<Rightarrow> Inr (refreshTickets response (s2\<lparr>error := Some m\<rparr>))))"

subsection \<open>Rendering a column\<close>

text \<open>
  The \<^verbatim>\<open>each\<close> block of a column (\<^verbatim>\<open>part_001\<close>, lines 203-204) iterates over
  \<^verbatim>\<open>ticketsByColumn[column.title].sort((a, b) => getVoteCount(b) - getVoteCount(a))\<close>.
  \<^verbatim>\<open>sort\<close> works in place, so the bucket itself is left in display order. The result is
  the sequence of cards drawn and the state after drawing.
\<close>

definition vote_cmp :: "board \<Rightarrow> Ticket \<Rightarrow> Ticket \<Rightarrow> int" where
  "vote_cmp s a b = int (getVoteCount s b) - int (getVoteCount s a)"

definition render_column :: "string \<Rightarrow> board \<Rightarrow> Ticket list \<times> board" where
  "render_column title s =
     (case ticketsByColumn s title of
        None \<Rightarrow> ([], s)
      | Some b \<Rightarrow>
          if length b = 0 then ([], s)
          else (let shown = array_sort (vote_cmp s) b
                in (shown, s\<lparr>ticketsByColumn := (ticketsByColumn s)(title \<mapsto> shown)\<rparr>)))"

section \<open>The store module\<close>

text \<open>
  \<^verbatim>\<open>src/lib/stores/ticketStore.ts\<close> holds a second version of the ticket handlers, over
  Svelte stores instead of the page's variables. The page does not import it. The
  record holds its stores and the log of remote calls. The module keeps a flat list
  \<^verbatim>\<open>tickets\<close> next to \<^verbatim>\<open>ticketsByColumn\<close>.
\<close>

record ticket_store =
  st_tickets :: "Ticket list"
  st_ticketsByColumn :: "string \<rightharpoonup> Ticket list"
  st_loading :: bool
  st_error :: "string option"
  st_editingTicketId :: "string option"
  st_editingTitle :: string
  st_editingContent :: string
  st_calls :: "remote_call list"

definition store_startEdit :: "Ticket \<Rightarrow> ticket_store \<Rightarrow> ticket_store" where
  "store_startEdit ticket s =
     (if st_editingTicketId s = Some (t_id ticket) then s
      else s\<lparr>st_editingTicketId := Some (t_id ticket),
              st_editingTitle := t_title ticket,
              st_editingContent := content_or_empty ticket\<rparr>)"

text \<open>
  \<^verbatim>\<open>updateTicket(id, {title, content})\<close> (lines 89-122) up to its first \<^verbatim>\<open>await\<close>.
  \<^verbatim>\<open>saveEdit\<close> of the store calls \<^verbatim>\<open>updateTicket\<close> without awaiting it, so this is the
  part of it that runs whatever the backend answers later. The flat list is mapped and
  regrouped. The loop of lines 99-103 assigns \<^verbatim>\<open>updatedByColumn[columnName] || []\<close> and
  then pushes; it ends as the loop of \<open>fetchTickets\<close> does, with the same buckets or
  with the same exception. When it returns, both stores are set and the update is
  requested. When it throws, the \<^verbatim>\<open>catch\<close> of line 118 sets the error store and calls
  \<^verbatim>\<open>refreshTickets\<close>, which sets \<^verbatim>\<open>loading\<close> and requests the read.
\<close>

definition store_updateTicket_begin ::
  "string \<Rightarrow> string \<Rightarrow> string \<Rightarrow> ticket_store \<Rightarrow> ticket_store" where
  "store_updateTicket_begin i title content s =
     (let updatedTickets =
            map (\<lambda>t. if t_id t = i then t\<lparr>t_title := title, t_content := Some content\<rparr> else t)
              (st_tickets s)
      in case group_loop updatedTickets Map.empty of
           Inr updatedByColumn \<Rightarrow>
             s\<lparr>st_tickets := updatedTickets,
               st_ticketsByColumn := updatedByColumn,
               st_calls := st_calls s @ [UpdateTicket i title (Some content)]\<rparr>
         | Inl e \<Rightarrow>
             s\<lparr>st_error := Some (not_a_function ''updatedByColumn[columnName].push''),
               st_loading := True,
               st_calls := st_calls s @ [FetchTickets]\<rparr>)"

definition store_saveEdit :: "Ticket \<Rightarrow> ticket_store \<Rightarrow> ticket_store" where
  "store_saveEdit ticket s =
     (if st_editingTicketId s = Some (t_id ticket) then
        (store_updateTicket_begin (t_id ticket) (st_editingTitle s) (st_editingContent s) s)
          \<lparr>st_editingTicketId := None\<rparr>
      else s)"

definition store_removeTicket_optimistic :: "Ticket \<Rightarrow> ticket_store \<Rightarrow> js_error + ticket_store" where
  "store_removeTicket_optimistic ticket s =
     (case st_ticketsByColumn s (t_column ticket) of
        None \<Rightarrow> Inl TypeError
      | Some b \<Rightarrow>
          Inr (s\<lparr>st_ticketsByColumn := (st_ticketsByColumn s)
                   (t_column ticket \<mapsto> filter (\<lambda>t. t_id t \<noteq> t_id ticket) b)\<rparr>))"

section \<open>Example data\<close>

text \<open>A small board, used where a property is run on a concrete input.\<close>

definition mk_ticket :: "string \<Rightarrow> string \<Rightarrow> string \<Rightarrow> int \<Rightarrow> string option \<Rightarrow> Ticket" where
  "mk_ticket i title col ord content =
     \<lparr>t_id = i, t_title = title, t_column = col, t_order = ord, t_rowSpan = None,
      t_colSpan = None, t_content = content\<rparr>"

definition ticket_a :: Ticket where
  "ticket_a = mk_ticket ''a'' ''Coffee'' ''Good'' 1 None"

definition ticket_b :: Ticket where
  "ticket_b = mk_ticket ''b'' ''Standup'' ''Ideas'' 1 (Some ''shorter'')"

definition ticket_c :: Ticket where
  "ticket_c = mk_ticket ''c'' ''Demo'' ''Good'' 2 None"

definition ex_rows :: "Ticket list" where
  "ex_rows = [ticket_a, ticket_b, ticket_c]"

definition ex_votes :: "Vote list" where
  "ex_votes =
     [\<lparr>v_id = ''v1'', v_ticket_id = ''c'', v_voter_id = ''u1''\<rparr>,
      \<lparr>v_id = ''v2'', v_ticket_id = ''c'', v_voter_id = ''u2''\<rparr>,
      \<lparr>v_id = ''v3'', v_ticket_id = ''a'', v_voter_id = ''u2''\<rparr>]"

definition ex_gen :: "nat \<Rightarrow> string" where
  "ex_gen n = ''7d9f''"

definition ex_board :: board where
  "ex_board =
     \<lparr>ticketsByColumn = [''Good'' \<mapsto> [ticket_a, ticket_c], ''Ideas'' \<mapsto> [ticket_b]],
      loading = False,
      error = None,
      votes = ex_votes,
      editingTicketId = Some ''b'',
      editingTitle = ''Standup'',
      editingContent = Some ''shorter'',
      window_defined = True,
      localStorage = [''voter_id'' \<mapsto> ''u1''],
      uuid_draws = 0,
      votes_table = ex_votes,
      calls = []\<rparr>"

text \<open>
  A board whose column Good holds three tickets with 0, 3 and 1 votes, and fetched rows
  of which one has a column that is an inherited name.
\<close>

definition ticket_d :: Ticket where
  "ticket_d = mk_ticket ''d'' ''Retro'' ''Good'' 3 None"

definition voted_board :: board where
  "voted_board =
     ex_board
       \<lparr>ticketsByColumn := [''Good'' \<mapsto> [ticket_a, ticket_c, ticket_d]],
        votes :=
          [\<lparr>v_id = ''w1'', v_ticket_id = ''c'', v_voter_id = ''u1''\<rparr>,
           \<lparr>v_id = ''w2'', v_ticket_id = ''d'', v_voter_id = ''u1''\<rparr>,
           \<lparr>v_id = ''w3'', v_ticket_id = ''c'', v_voter_id = ''u2''\<rparr>,
           \<lparr>v_id = ''w4'', v_ticket_id = ''c'', v_voter_id = ''u3''\<rparr>]\<rparr>"

definition ticket_x :: Ticket where
  "ticket_x = mk_ticket ''x'' ''Imported'' ''constructor'' 2 None"

definition odd_rows :: "Ticket list" where
  "odd_rows = [ticket_a, ticket_x, ticket_c]"

definition ex_store :: ticket_store where
  "ex_store =
     \<lparr>st_tickets = ex_rows,
      st_ticketsByColumn = [''Good'' \<mapsto> [ticket_a, ticket_c], ''Ideas'' \<mapsto> [ticket_b]],
      st_loading = False,
      st_error = None,
      st_editingTicketId = Some ''b'',
      st_editingTitle = ''Standup'',
      st_editingContent = ''shorter'',
      st_calls = []\<rparr>"

section \<open>Properties\<close>

lemma truthy_simps:
  "truthy None = False" "truthy (Some v) = (v \<noteq> [])"
  by (simp_all add: truthy_def)

subsection \<open>Grouping the fetched rows\<close>

lemma inherited_name_labels:
  "\<not> inherited_name ''Good''" "\<not> inherited_name ''Bad''"
  "\<not> inherited_name ''Actions''" "\<not> inherited_name ''Ideas''"
  by (simp_all add: inherited_name_def object_prototype_names_def)

lemma not_a_function_nonempty: "or_else (not_a_function callee) d = not_a_function callee"
  by (simp add: or_else_def not_a_function_def)

lemma group_step_ok:
  assumes "\<not> inherited_name (t_column t)"
  shows "group_step g t =
     Inr (g(t_column t \<mapsto> (case g (t_column t) of None \<Rightarrow> [] | Some b \<Rightarrow> b) @ [t]))"
  using assms by (auto simp: group_step_def Let_def split: option.splits)

lemma group_step_throws:
  assumes "inherited_name (t_column t)" and "g (t_column t) = None"
  shows "group_step g t = Inl TypeError"
  using assms by (simp add: group_step_def Let_def)

lemma group_loop_ok:
  assumes "\<forall>t\<in>set ts. \<not> inherited_name (t_column t)"
  shows "\<exists>grouped. group_loop ts g = Inr grouped \<and>
     (\<forall>c. grouped c =
        (if filter (\<lambda>t. t_column t = c) ts = [] then g c
         else Some ((case g c of None \<Rightarrow> [] | Some b \<Rightarrow> b) @ filter (\<lambda>t. t_column t = c) ts)))"
  using assms
proof (induction ts arbitrary: g)
  case Nil
  show ?case by simp
next
  case (Cons t ts)
  let ?g = "g(t_column t \<mapsto> (case g (t_column t) of None \<Rightarrow> [] | Some b \<Rightarrow> b) @ [t])"
  from Cons.prems have step: "group_step g t = Inr ?g"
    by (simp add: group_step_ok)
  from Cons.prems have "\<forall>t\<in>set ts. \<not> inherited_name (t_column t)"
    by simp
  from Cons.IH[OF this, of ?g] obtain grouped where
    loop: "group_loop ts ?g = Inr grouped" and
    buckets: "\<And>c. grouped c =
        (if filter (\<lambda>t. t_column t = c) ts = [] then ?g c
         else Some ((case ?g c of None \<Rightarrow> [] | Some b \<Rightarrow> b) @ filter (\<lambda>t. t_column t = c) ts))"
    by blast
  have "group_loop (t # ts) g = Inr grouped"
    by (simp add: step loop)
  moreover have "grouped c =
        (if filter (\<lambda>t. t_column t = c) (t # ts) = [] then g c
         else Some ((case g c of None \<Rightarrow> [] | Some b \<Rightarrow> b) @
                    filter (\<lambda>t. t_column t = c) (t # ts)))" for c
    by (simp add: buckets)
  ultimately show ?case by blast
qed

lemma group_loop_throws:
  assumes "\<exists>t\<in>set ts. inherited_name (t_column t)"
      and "\<forall>c. inherited_name c \<longrightarrow> g c = None"
  shows "group_loop ts g = Inl TypeError"
  using assms
proof (induction ts arbitrary: g)
  case Nil
  then show ?case by simp
next
  case (Cons t ts)
  show ?case
  proof (cases "inherited_name (t_column t)")
    case True
    with Cons.prems(2) have "group_step g t = Inl TypeError"
      by (simp add: group_step_throws)
    then show ?thesis by simp
  next
    case False
    let ?g = "g(t_column t \<mapsto> (case g (t_column t) of None \<Rightarrow> [] | Some b \<Rightarrow> b) @ [t])"
    from False have step: "group_step g t = Inr ?g"
      by (rule group_step_ok)
    from False Cons.prems(1) have later: "\<exists>t\<in>set ts. inherited_name (t_column t)"
      by auto
    from False Cons.prems(2) have inv: "\<forall>c. inherited_name c \<longrightarrow> ?g c = None"
      by auto
    have "group_loop ts ?g = Inl TypeError"
      by (rule Cons.IH[of ?g, OF later inv])
    then show ?thesis
      by (simp only: group_loop.simps step sum.case)
  qed
qed

text \<open>
  A fetched row whose column is an inherited name makes \<open>fetchTickets\<close> throw, and
  \<open>refreshTickets\<close> then keeps the tickets it had.
\<close>

lemma fetchTickets_throws:
  assumes "\<exists>T\<in>set rows. inherited_name (t_column T)"
  shows "fetchTickets (Inr rows) = Inl (Raised TypeError)"
  using group_loop_throws[OF assms, of Map.empty] by (simp add: fetchTickets_def)

lemma fetchTickets_throws_example:
  "fetchTickets (Inr odd_rows) = Inl (Raised TypeError)"
  by (simp add: fetchTickets_def group_step_def Let_def inherited_name_def
      object_prototype_names_def odd_rows_def ticket_a_def ticket_x_def ticket_c_def
      mk_ticket_def)

lemma count_list_of_filter:
  "count_list (filter P xs) x = (if P x then count_list xs x else 0)"
  by (induction xs) auto

lemma count_list_distinct:
  "distinct xs \<Longrightarrow> x \<in> set xs \<Longrightarrow> count_list xs x = 1"
  by (induction xs) (auto simp: count_list_0_iff)

text \<open>
  C2. When the remote read answers with rows in ascending \<open>order\<close>, none of which has
  for column a name that every object inherits (none of the four column labels is
  one), \<open>fetchTickets\<close> returns a mapping whose bucket for a column is the fetched rows
  of that column, in fetch order, and there is no bucket for a column without rows. So
  every fetched ticket is in the bucket of its own column, as often as it was fetched
  (once, when the rows are distinct), a bucket holds only fetched tickets of its column,
  and every bucket is non-decreasing in \<open>order\<close>.
\<close>

theorem fetchTickets_partition:
  assumes "sorted_wrt (\<lambda>a b. t_order a \<le> t_order b) rows"
      and "\<forall>T\<in>set rows. \<not> inherited_name (t_column T)"
  shows "\<exists>grouped. fetchTickets (Inr rows) = Inr grouped \<and>
    (\<forall>c. grouped c = (if \<exists>T\<in>set rows. t_column T = c
                        then Some (filter (\<lambda>T. t_column T = c) rows) else None)) \<and>
    (\<forall>T\<in>set rows. \<exists>b. grouped (t_column T) = Some b \<and> T \<in> set b \<and>
                         count_list b T = count_list rows T) \<and>
    (\<forall>c b T. grouped c = Some b \<and> T \<in> set b \<longrightarrow> t_column T = c \<and> T \<in> set rows) \<and>
    (\<forall>c b. grouped c = Some b \<longrightarrow> sorted_wrt (\<lambda>a b. t_order a \<le> t_order b) b) \<and>
    (distinct rows \<longrightarrow>
       (\<forall>T\<in>set rows. \<exists>b. grouped (t_column T) = Some b \<and> count_list b T = 1))"
proof -
  from group_loop_ok[OF assms(2), of Map.empty] obtain g where
    loop: "group_loop rows Map.empty = Inr g" and
    raw: "\<And>c. g c =
        (if filter (\<lambda>t. t_column t = c) rows = [] then None
         else Some (filter (\<lambda>t. t_column t = c) rows))"
    by auto
  have bucket: "g c = (if \<exists>T\<in>set rows. t_column T = c
                        then Some (filter (\<lambda>T. t_column T = c) rows) else None)" for c
    by (simp add: raw filter_empty_conv)
  have own: "\<exists>b. g (t_column T) = Some b \<and> T \<in> set b \<and> count_list b T = count_list rows T"
    if "T \<in> set rows" for T
    using that by (auto simp: bucket count_list_of_filter)
  have only: "t_column T = c \<and> T \<in> set rows" if "g c = Some b \<and> T \<in> set b" for c b T
    using that by (auto simp: bucket split: if_splits)
  have ordered: "sorted_wrt (\<lambda>a b. t_order a \<le> t_order b) b" if "g c = Some b" for c b
    using that assms(1) by (auto simp: bucket sorted_wrt_filter split: if_splits)
  have once: "\<exists>b. g (t_column T) = Some b \<and> count_list b T = 1"
    if "distinct rows" "T \<in> set rows" for T
    using own[OF that(2)] count_list_distinct[OF that] by auto
  have "fetchTickets (Inr rows) = Inr g"
    by (simp add: fetchTickets_def loop)
  with bucket own only ordered once show ?thesis
    by blast
qed

theorem fetchTickets_partition_witness:
  "sorted_wrt (\<lambda>a b. t_order a \<le> t_order b) ex_rows \<and>
   list_all (\<lambda>T. \<not> inherited_name (t_column T)) ex_rows \<and>
   (\<exists>grouped. fetchTickets (Inr ex_rows) = Inr grouped \<and>
      grouped ''Good'' = Some [ticket_a, ticket_c] \<and>
      grouped ''Ideas'' = Some [ticket_b] \<and>
      grouped ''Bad'' = None)"
proof -
  have s: "sorted_wrt (\<lambda>a b. t_order a \<le> t_order b) ex_rows"
    by (simp add: ex_rows_def ticket_a_def ticket_b_def ticket_c_def mk_ticket_def)
  have n: "list_all (\<lambda>T. \<not> inherited_name (t_column T)) ex_rows"
    by (simp add: ex_rows_def ticket_a_def ticket_b_def ticket_c_def mk_ticket_def
        inherited_name_labels)
  then have n': "\<forall>T\<in>set ex_rows. \<not> inherited_name (t_column T)"
    by (simp add: list_all_iff)
  from fetchTickets_partition[OF s n'] obtain grouped where
    f: "fetchTickets (Inr ex_rows) = Inr grouped" and
    b: "\<And>c. grouped c = (if \<exists>T\<in>set ex_rows. t_column T = c
                        then Some (filter (\<lambda>T. t_column T = c) ex_rows) else None)"
    by blast
  have "grouped ''Good'' = Some [ticket_a, ticket_c]"
    by (simp add: b ex_rows_def ticket_a_def ticket_b_def ticket_c_def mk_ticket_def)
  moreover have "grouped ''Ideas'' = Some [ticket_b]"
    by (simp add: b ex_rows_def ticket_a_def ticket_b_def ticket_c_def mk_ticket_def)
  moreover have "grouped ''Bad'' = None"
    by (simp add: b ex_rows_def ticket_a_def ticket_b_def ticket_c_def mk_ticket_def)
  ultimately show ?thesis using s n f by blast
qed

subsection \<open>Saving an edit\<close>

lemma refreshTickets_calls: "calls (refreshTickets response s) = calls s @ [FetchTickets]"
  by (simp add: refreshTickets_def Let_def split: sum.splits)

lemma refreshTickets_ok:
  assumes "fetchTickets response = Inr grouped"
  shows "ticketsByColumn (refreshTickets response s) = grouped \<and>
         error (refreshTickets response s) = error s \<and>
         loading (refreshTickets response s) = False"
  using assms by (simp add: refreshTickets_def Let_def)

lemma refreshTickets_failed:
  assumes "fetchTickets response = Inl e"
  shows "ticketsByColumn (refreshTickets response s) = ticketsByColumn s \<and>
         error (refreshTickets response s) =
           Some (or_else (thrown_message e) ''Failed to load tickets.'') \<and>
         loading (refreshTickets response s) = False"
  using assms by (simp add: refreshTickets_def Let_def)

lemma refreshTickets_rows:
  assumes "\<forall>T\<in>set rows. \<not> inherited_name (t_column T)"
  shows "(\<forall>c. ticketsByColumn (refreshTickets (Inr rows) s) c =
            (if \<exists>T\<in>set rows. t_column T = c
             then Some (filter (\<lambda>T. t_column T = c) rows) else None)) \<and>
         error (refreshTickets (Inr rows) s) = error s"
proof -
  from group_loop_ok[OF assms, of Map.empty] obtain g where
    loop: "group_loop rows Map.empty = Inr g" and
    raw: "\<And>c. g c =
        (if filter (\<lambda>t. t_column t = c) rows = [] then None
         else Some (filter (\<lambda>t. t_column t = c) rows))"
    by auto
  have "fetchTickets (Inr rows) = Inr g"
    by (simp add: fetchTickets_def loop)
  from refreshTickets_ok[OF this, of s] show ?thesis
    by (simp add: raw filter_empty_conv)
qed

lemma refreshTickets_odd_rows:
  assumes "\<exists>T\<in>set rows. inherited_name (t_column T)"
  shows "ticketsByColumn (refreshTickets (Inr rows) s) = ticketsByColumn s \<and>
         error (refreshTickets (Inr rows) s) =
           Some (not_a_function ''grouped[ticket.column].push'')"
  using refreshTickets_failed[OF fetchTickets_throws[OF assms], of s]
  by (simp add: thrown_message_def not_a_function_nonempty)

lemma refreshTickets_odd_rows_example:
  "ticketsByColumn (refreshTickets (Inr odd_rows) ex_board) = ticketsByColumn ex_board \<and>
   error (refreshTickets (Inr odd_rows) ex_board) =
     Some ''grouped[ticket.column].push is not a function'' \<and>
   calls (refreshTickets (Inr odd_rows) ex_board) = [FetchTickets]"
  by (simp add: refreshTickets_def fetchTickets_throws_example thrown_message_def
      not_a_function_def or_else_def Let_def ex_board_def)

lemma refreshTickets_rejected:
  "ticketsByColumn (refreshTickets (Inl m) s) = ticketsByColumn s \<and>
   error (refreshTickets (Inl m) s) = Some (or_else m ''Failed to load tickets.'')"
  by (simp add: refreshTickets_def fetchTickets_def thrown_message_def Let_def)

text \<open>
  \<open>saveEdit\<close> of the page compares before it writes (line 133, "Only save if changed").
  Called while the editing title is the ticket's title and the editing content is the
  ticket's content (a missing content read as the empty string), it returns normally
  whatever the backend would answer, the log of remote calls is as before, the tickets
  are as before, and \<open>editingTicketId\<close> is \<^verbatim>\<open>null\<close>; nothing else changed. The guard of
  line 131 tests \<^verbatim>\<open>!editingTicketId\<close>, which the empty string passes like \<^verbatim>\<open>null\<close>, so
  the one state left out is an edit session whose id is the empty string.
\<close>

lemma saveEdit_unchanged:
  assumes "editingTicketId s \<noteq> Some []"
      and "editingTitle s = t_title ticket"
      and "editingContent s = Some (content_or_empty ticket)"
  shows "\<exists>s'. saveEdit upd response ticket s = Inr s' \<and>
           calls s' = calls s \<and>
           ticketsByColumn s' = ticketsByColumn s \<and>
           editingTicketId s' = None \<and>
           s' = s\<lparr>editingTicketId := None\<rparr>"
proof (cases "editingTicketId s")
  case None
  then have "saveEdit upd response ticket s = Inr s"
    by (simp add: saveEdit_def truthy_simps)
  with None show ?thesis by simp
next
  case (Some i)
  with assms(1) have "truthy (editingTicketId s)"
    by (simp add: truthy_simps)
  with assms(2,3) have "saveEdit upd response ticket s = Inr (s\<lparr>editingTicketId := None\<rparr>)"
    by (simp add: saveEdit_def)
  then show ?thesis by simp
qed

lemma saveEdit_unchanged_example:
  "editingTicketId ex_board \<noteq> Some [] \<and>
   editingTitle ex_board = t_title ticket_b \<and>
   editingContent ex_board = Some (content_or_empty ticket_b) \<and>
   saveEdit (Some ''offline'') (Inl ''offline'') ticket_b ex_board =
     Inr (ex_board\<lparr>editingTicketId := None\<rparr>) \<and>
   calls (ex_board\<lparr>editingTicketId := None\<rparr>) = []"
  using saveEdit_unchanged[of ex_board ticket_b "Some ''offline''" "Inl ''offline''"]
  by (auto simp: ex_board_def ex_votes_def ticket_a_def ticket_b_def ticket_c_def
      mk_ticket_def content_or_empty_def or_else_def)

lemma store_saveEdit_calls:
  assumes "st_editingTicketId s = Some (t_id ticket)"
      and "\<forall>t\<in>set (st_tickets s). \<not> inherited_name (t_column t)"
  shows "st_calls (store_saveEdit ticket s) =
       st_calls s @ [UpdateTicket (t_id ticket) (st_editingTitle s) (Some (st_editingContent s))]"
proof -
  let ?updated = "map (\<lambda>t. if t_id t = t_id ticket
                          then t\<lparr>t_title := st_editingTitle s,
                                  t_content := Some (st_editingContent s)\<rparr>
                          else t) (st_tickets s)"
  from assms(2) have "\<forall>t\<in>set ?updated. \<not> inherited_name (t_column t)"
    by auto
  from group_loop_ok[OF this, of Map.empty] obtain g where
    "group_loop ?updated Map.empty = Inr g"
    by blast
  with assms(1) show ?thesis
    by (simp add: store_saveEdit_def store_updateTicket_begin_def Let_def)
qed

text \<open>
  C3. \<open>saveEdit\<close> of the store module has no such comparison: whenever
  \<open>editingTicketId\<close> is the ticket's id it calls \<^verbatim>\<open>updateTicket\<close>, which issues the remote
  update. On the example store the ticket \<open>b\<close> is being edited, the editing title and
  content are the ticket's own, no remote call has been made; after \<open>saveEdit\<close> the log
  holds an update of \<open>b\<close> with those same values, and edit mode is left.
\<close>

theorem store_saveEdit_writes_unchanged:
  "st_editingTicketId ex_store = Some (t_id ticket_b) \<and>
   st_editingTitle ex_store = t_title ticket_b \<and>
   st_editingContent ex_store = content_or_empty ticket_b \<and>
   st_calls ex_store = [] \<and>
   st_calls (store_saveEdit ticket_b ex_store) =
     [UpdateTicket ''b'' ''Standup'' (Some ''shorter'')] \<and>
   st_editingTicketId (store_saveEdit ticket_b ex_store) = None"
  by (simp add: store_saveEdit_def store_updateTicket_begin_def group_step_def
      inherited_name_labels Let_def ex_store_def ex_rows_def ticket_a_def ticket_b_def
      ticket_c_def mk_ticket_def content_or_empty_def or_else_def)

text \<open>
  C9. \<open>saveEdit\<close> called while \<open>editingTicketId\<close> is \<^verbatim>\<open>null\<close> returns at once, for every
  ticket and whatever the backend would answer: the state it returns is the state it
  was given, log of remote calls included, so no remote call was issued and the view
  model (tickets, editing fields, error flag) is untouched.
\<close>

theorem saveEdit_no_session:
  assumes "editingTicketId s = None"
  shows "saveEdit upd response ticket s = Inr s"
  using assms by (simp add: saveEdit_def truthy_simps)

theorem saveEdit_no_session_witness:
  "editingTicketId (ex_board\<lparr>editingTicketId := None, editingTitle := ''Retro''\<rparr>) = None \<and>
   saveEdit None (Inr []) ticket_b (ex_board\<lparr>editingTicketId := None, editingTitle := ''Retro''\<rparr>) =
     Inr (ex_board\<lparr>editingTicketId := None, editingTitle := ''Retro''\<rparr>)"
  using saveEdit_no_session[of "ex_board\<lparr>editingTicketId := None, editingTitle := ''Retro''\<rparr>"
      None "Inr []" ticket_b]
  by simp

subsection \<open>A failed remote write\<close>

text \<open>
  C4, as the code has it. Take a ticket whose bucket \<open>b\<close> exists and a remote write that
  fails with message \<open>m\<close>.

  \<^item> \<open>saveEdit\<close> with a changed title or content returns what \<open>refreshTickets\<close> makes of
    the optimistic state (the ticket replaced in its bucket, edit mode left, the update
    logged) with the error flag set to \<open>m\<close>.
  \<^item> \<open>removeTicket\<close> returns what \<open>refreshTickets\<close> makes of its optimistic state (the
    ticket filtered out of its bucket, the delete logged) with the error flag set to \<open>m\<close>.
  \<^item> \<open>refreshTickets\<close> adds a \<open>fetchTickets\<close> call to the log. When the read answers
    with rows of which none has an inherited name for column, the tickets become the
    grouping of those rows, which discards the optimistic change, and the error flag
    stays. When \<open>fetchTickets\<close> throws, the tickets stay, optimistic change included,
    and the flag takes the message of what was thrown: the read's, when the read fails
    too, and the \<^verbatim>\<open>TypeError\<close>'s, when a row has an inherited name for column.
  \<^item> The add action is different: after a failed insert the log holds the insert and
    nothing after it, the error flag is set, and the tickets are as before.
\<close>

theorem failed_write_reloads:
  assumes bucket: "ticketsByColumn s (t_column ticket) = Some b"
  shows
    "(truthy (editingTicketId s) \<and>
      (editingTitle s \<noteq> t_title ticket \<or> editingContent s \<noteq> Some (content_or_empty ticket)) \<longrightarrow>
      (\<exists>edited.
         saveEdit (Some m) response ticket s =
           Inr (refreshTickets response (edited\<lparr>error := Some m\<rparr>)) \<and>
         ticketsByColumn edited = (ticketsByColumn s)(t_column ticket \<mapsto>
           map (\<lambda>t. if t_id t = t_id ticket
                     then ticket\<lparr>t_title := editingTitle s, t_content := editingContent s\<rparr>
                     else t) b) \<and>
         editingTicketId edited = None \<and>
         calls edited = calls s @
           [UpdateTicket (t_id ticket) (editingTitle s) (editingContent s)])) \<and>
     (\<exists>removed.
        removeTicket (Some m) response ticket s =
          Inr (refreshTickets response (removed\<lparr>error := Some m\<rparr>)) \<and>
        ticketsByColumn removed = (ticketsByColumn s)(t_column ticket \<mapsto>
          filter (\<lambda>t. t_id t \<noteq> t_id ticket) b) \<and>
        calls removed = calls s @ [DeleteTicket (t_id ticket)]) \<and>
     (\<forall>x. calls (refreshTickets response x) = calls x @ [FetchTickets]) \<and>
     (\<forall>x rows. response = Inr rows \<and> (\<forall>T\<in>set rows. \<not> inherited_name (t_column T)) \<longrightarrow>
        (\<forall>c. ticketsByColumn (refreshTickets response x) c =
           (if \<exists>T\<in>set rows. t_column T = c
            then Some (filter (\<lambda>T. t_column T = c) rows) else None)) \<and>
        error (refreshTickets response x) = error x) \<and>
     (\<forall>x rows. response = Inr rows \<and> (\<exists>T\<in>set rows. inherited_name (t_column T)) \<longrightarrow>
        ticketsByColumn (refreshTickets response x) = ticketsByColumn x \<and>
        error (refreshTickets response x) =
          Some (not_a_function ''grouped[ticket.column].push'')) \<and>
     (\<forall>x m'. response = Inl m' \<longrightarrow>
        ticketsByColumn (refreshTickets response x) = ticketsByColumn x \<and>
        error (refreshTickets response x) = Some (or_else m' ''Failed to load tickets.'')) \<and>
     calls (handleInstantAddTicket (Inl m) columnTitle s) =
       calls s @ [InsertTicket ''New Ticket'' ''Double-click to edit title and details''
                    columnTitle (new_order s columnTitle)] \<and>
     error (handleInstantAddTicket (Inl m) columnTitle s) =
       Some (or_else m ''Failed to add ticket.'') \<and>
     ticketsByColumn (handleInstantAddTicket (Inl m) columnTitle s) = ticketsByColumn s"
proof -
  let ?edited = "s\<lparr>ticketsByColumn := (ticketsByColumn s)(t_column ticket \<mapsto>
                     map (\<lambda>t. if t_id t = t_id ticket
                               then ticket\<lparr>t_title := editingTitle s,
                                            t_content := editingContent s\<rparr>
                               else t) b),
                   editingTicketId := None,
                   calls := calls s @
                     [UpdateTicket (t_id ticket) (editingTitle s) (editingContent s)]\<rparr>"
  let ?removed = "s\<lparr>ticketsByColumn := (ticketsByColumn s)(t_column ticket \<mapsto>
                      filter (\<lambda>t. t_id t \<noteq> t_id ticket) b),
                    calls := calls s @ [DeleteTicket (t_id ticket)]\<rparr>"
  have edit: "saveEdit (Some m) response ticket s =
      Inr (refreshTickets response (?edited\<lparr>error := Some m\<rparr>))"
    if "truthy (editingTicketId s)"
      "editingTitle s \<noteq> t_title ticket \<or> editingContent s \<noteq> Some (content_or_empty ticket)"
    using that bucket by (simp add: saveEdit_def Let_def)
  have "\<exists>edited.
      saveEdit (Some m) response ticket s =
        Inr (refreshTickets response (edited\<lparr>error := Some m\<rparr>)) \<and>
      ticketsByColumn edited = (ticketsByColumn s)(t_column ticket \<mapsto>
        map (\<lambda>t. if t_id t = t_id ticket
                  then ticket\<lparr>t_title := editingTitle s, t_content := editingContent s\<rparr>
                  else t) b) \<and>
      editingTicketId edited = None \<and>
      calls edited = calls s @
        [UpdateTicket (t_id ticket) (editingTitle s) (editingContent s)]"
    if "truthy (editingTicketId s)"
      "editingTitle s \<noteq> t_title ticket \<or> editingContent s \<noteq> Some (content_or_empty ticket)"
    by (rule exI[of _ ?edited]) (simp add: edit[OF that])
  moreover have "removeTicket (Some m) response ticket s =
      Inr (refreshTickets response (?removed\<lparr>error := Some m\<rparr>))"
    using bucket by (simp add: removeTicket_def removeTicket_optimistic_def Let_def)
  then have "\<exists>removed.
      removeTicket (Some m) response ticket s =
        Inr (refreshTickets response (removed\<lparr>error := Some m\<rparr>)) \<and>
      ticketsByColumn removed = (ticketsByColumn s)(t_column ticket \<mapsto>
        filter (\<lambda>t. t_id t \<noteq> t_id ticket) b) \<and>
      calls removed = calls s @ [DeleteTicket (t_id ticket)]"
    by (intro exI[of _ ?removed]) simp
  moreover have "calls (refreshTickets response x) = calls x @ [FetchTickets]" for x
    by (rule refreshTickets_calls)
  moreover have "(\<forall>c. ticketsByColumn (refreshTickets response x) c =
         (if \<exists>T\<in>set rows. t_column T = c
          then Some (filter (\<lambda>T. t_column T = c) rows) else None)) \<and>
      error (refreshTickets response x) = error x"
    if "response = Inr rows \<and> (\<forall>T\<in>set rows. \<not> inherited_name (t_column T))" for x rows
    using that refreshTickets_rows[of rows x] by simp
  moreover have "ticketsByColumn (refreshTickets response x) = ticketsByColumn x \<and>
      error (refreshTickets response x) =
        Some (not_a_function ''grouped[ticket.column].push'')"
    if "response = Inr rows \<and> (\<exists>T\<in>set rows. inherited_name (t_column T))" for x rows
    using that refreshTickets_odd_rows[of rows x] by simp
  moreover have "ticketsByColumn (refreshTickets response x) = ticketsByColumn x \<and>
      error (refreshTickets response x) = Some (or_else m' ''Failed to load tickets.'')"
    if "response = Inl m'" for x m'
    using that by (simp add: refreshTickets_rejected)
  moreover have "calls (handleInstantAddTicket (Inl m) columnTitle s) =
      calls s @ [InsertTicket ''New Ticket'' ''Double-click to edit title and details''
                   columnTitle (new_order s columnTitle)] \<and>
      error (handleInstantAddTicket (Inl m) columnTitle s) =
        Some (or_else m ''Failed to add ticket.'') \<and>
      ticketsByColumn (handleInstantAddTicket (Inl m) columnTitle s) = ticketsByColumn s"
    by (simp add: handleInstantAddTicket_def Let_def)
  ultimately show ?thesis
    by blast
qed

theorem failed_write_reloads_witness:
  "ticketsByColumn (ex_board\<lparr>editingTitle := ''Daily standup''\<rparr>) (t_column ticket_b) =
     Some [ticket_b] \<and>
   truthy (editingTicketId (ex_board\<lparr>editingTitle := ''Daily standup''\<rparr>)) \<and>
   editingTitle (ex_board\<lparr>editingTitle := ''Daily standup''\<rparr>) \<noteq> t_title ticket_b \<and>
   list_all (\<lambda>T. \<not> inherited_name (t_column T)) ex_rows \<and>
   (\<exists>s'. saveEdit (Some ''permission denied'') (Inr ex_rows) ticket_b
            (ex_board\<lparr>editingTitle := ''Daily standup''\<rparr>) = Inr s' \<and>
      error s' = Some ''permission denied'' \<and>
      calls s' = [UpdateTicket ''b'' ''Daily standup'' (Some ''shorter''), FetchTickets] \<and>
      ticketsByColumn s' ''Ideas'' = Some [ticket_b] \<and>
      ticketsByColumn s' ''Good'' = Some [ticket_a, ticket_c] \<and>
      ticketsByColumn s' ''Bad'' = None)"
proof -
  let ?s = "ex_board\<lparr>editingTitle := ''Daily standup''\<rparr>"
  have h1: "ticketsByColumn ?s (t_column ticket_b) = Some [ticket_b]"
    by (simp add: ex_board_def ex_rows_def ex_votes_def ticket_a_def ticket_b_def
        ticket_c_def mk_ticket_def)
  have h2: "truthy (editingTicketId ?s)"
    by (simp add: ex_board_def ex_rows_def ex_votes_def ticket_a_def ticket_b_def
        ticket_c_def mk_ticket_def truthy_simps)
  have h3: "editingTitle ?s \<noteq> t_title ticket_b"
    by (simp add: ex_board_def ex_rows_def ex_votes_def ticket_a_def ticket_b_def
        ticket_c_def mk_ticket_def)
  have h4: "list_all (\<lambda>T. \<not> inherited_name (t_column T)) ex_rows"
    by (simp add: ex_rows_def ticket_a_def ticket_b_def ticket_c_def mk_ticket_def
        inherited_name_labels)
  then have h4': "\<forall>T\<in>set ex_rows. \<not> inherited_name (t_column T)"
    by (simp add: list_all_iff)
  note inst = failed_write_reloads[OF h1, where m = "''permission denied''"
      and response = "Inr ex_rows"]
  from inst h2 h3 obtain edited where
    run: "saveEdit (Some ''permission denied'') (Inr ex_rows) ticket_b ?s =
            Inr (refreshTickets (Inr ex_rows) (edited\<lparr>error := Some ''permission denied''\<rparr>))"
    and log: "calls edited = calls ?s @
            [UpdateTicket (t_id ticket_b) (editingTitle ?s) (editingContent ?s)]"
    by blast
  from inst have
    fetched: "\<And>x. calls (refreshTickets (Inr ex_rows) x) = calls x @ [FetchTickets]"
    by blast
  from inst h4' have
    ok: "\<And>x. (\<forall>c. ticketsByColumn (refreshTickets (Inr ex_rows) x) c =
             (if \<exists>T\<in>set ex_rows. t_column T = c
              then Some (filter (\<lambda>T. t_column T = c) ex_rows) else None)) \<and>
          error (refreshTickets (Inr ex_rows) x) = error x"
    by blast
  have vals: "calls ?s = []" "t_id ticket_b = ''b''" "editingTitle ?s = ''Daily standup''"
    "editingContent ?s = Some ''shorter''"
    by (simp_all add: ex_board_def ex_rows_def ex_votes_def ticket_a_def ticket_b_def
        ticket_c_def mk_ticket_def)
  let ?s' = "refreshTickets (Inr ex_rows) (edited\<lparr>error := Some ''permission denied''\<rparr>)"
  have "error ?s' = Some ''permission denied''"
    by (simp add: ok)
  moreover have "calls ?s' = [UpdateTicket ''b'' ''Daily standup'' (Some ''shorter''), FetchTickets]"
    using log vals by (simp add: fetched)
  moreover have buckets: "ticketsByColumn ?s' c =
      (if \<exists>T\<in>set ex_rows. t_column T = c
       then Some (filter (\<lambda>T. t_column T = c) ex_rows) else None)" for c
    using ok by blast
  have "ticketsByColumn ?s' ''Ideas'' = Some [ticket_b]"
    by (subst buckets) (simp add: ex_rows_def ticket_a_def ticket_b_def ticket_c_def mk_ticket_def)
  moreover have "ticketsByColumn ?s' ''Good'' = Some [ticket_a, ticket_c]"
    by (subst buckets) (simp add: ex_rows_def ticket_a_def ticket_b_def ticket_c_def mk_ticket_def)
  moreover have "ticketsByColumn ?s' ''Bad'' = None"
    by (subst buckets) (simp add: ex_rows_def ticket_a_def ticket_b_def ticket_c_def mk_ticket_def)
  ultimately show ?thesis
    using h1 h2 h3 h4 run by blast
qed

text \<open>
  C4 as it is written fails twice on the example board. A failed insert of the
  add action sets the error flag, and the log ends with the insert: no \<open>fetchTickets\<close>
  call follows. And when the update of \<open>saveEdit\<close> fails and the reload fails too, the
  optimistic title is still in the bucket afterwards; the flag holds the reload's
  message.
\<close>

theorem failed_write_counterexample:
  "error (handleInstantAddTicket (Inl ''offline'') ''Ideas'' ex_board) = Some ''offline'' \<and>
   calls (handleInstantAddTicket (Inl ''offline'') ''Ideas'' ex_board) =
     [InsertTicket ''New Ticket'' ''Double-click to edit title and details'' ''Ideas'' 2] \<and>
   saveEdit (Some ''offline'') (Inl ''still offline'') ticket_b
       (ex_board\<lparr>editingTitle := ''Daily standup''\<rparr>) =
     Inr (ex_board
       \<lparr>editingTitle := ''Daily standup'',
        ticketsByColumn := (ticketsByColumn ex_board)
          (''Ideas'' \<mapsto> [ticket_b\<lparr>t_title := ''Daily standup'', t_content := Some ''shorter''\<rparr>]),
        editingTicketId := None,
        calls := [UpdateTicket ''b'' ''Daily standup'' (Some ''shorter''), FetchTickets],
        error := Some ''still offline'',
        loading := False\<rparr>)"
  by (simp add: handleInstantAddTicket_def saveEdit_def refreshTickets_def fetchTickets_def
      thrown_message_def new_order_def truthy_def content_or_empty_def or_else_def Let_def ex_board_def ex_votes_def ticket_a_def ticket_b_def ticket_c_def mk_ticket_def)

subsection \<open>Toggling a vote\<close>

lemma create_voter_id_result:
  "create_voter_id gen s = (i, s1) \<Longrightarrow>
     i = gen (uuid_draws s) \<and>
     s1 = s\<lparr>uuid_draws := Suc (uuid_draws s),
            localStorage := (localStorage s)(''voter_id'' \<mapsto> i)\<rparr>"
  by (auto simp: create_voter_id_def generateUniqueId_def)

lemma getCurrentVoterId_frame:
  assumes "getCurrentVoterId gen s = (i, s1)"
  shows "votes s1 = votes s \<and> votes_table s1 = votes_table s \<and> calls s1 = calls s \<and>
         error s1 = error s"
  using assms
  by (auto simp: getCurrentVoterId_def dest!: create_voter_id_result
      split: if_splits option.splits)

lemma getCurrentVoterId_again:
  assumes "getCurrentVoterId gen s = (i, s1)" and "gen (uuid_draws s) \<noteq> []"
  shows "getCurrentVoterId gen s1 = (i, s1)"
  using assms
  by (auto simp: getCurrentVoterId_def dest!: create_voter_id_result
      split: if_splits option.splits)

lemma list_ex_votes_of:
  "list_ex (\<lambda>v. v_ticket_id v = t \<and> v_voter_id v = u) vs = (votes_of t u vs \<noteq> 0)"
  by (induction vs) (auto simp: votes_of_def)

lemma loadVotes_table: "votes_table (loadVotes rfault s) = votes_table s"
  by (simp add: loadVotes_def fetchVotes_def Let_def split: option.splits)

lemma loadVotes_ok: "votes (loadVotes None s) = votes_table s"
  by (simp add: loadVotes_def fetchVotes_def Let_def)

text \<open>
  C1, as the code has it. \<open>voter\<close> is the id \<open>getCurrentVoterId\<close> gives, an id it
  generates is not the empty string, and the in-memory votes list agrees with the votes table on
  whether the voter has a vote on the ticket (no one else changed that pair since the
  list was loaded). Then \<open>toggleVote\<close>, run to its end, does this. When the remote write
  succeeds, the table afterwards holds no vote of the voter on the ticket if it held at
  least one before, and exactly one if it held none; and when the read that follows
  succeeds too, the in-memory list is the table. When the remote write fails with
  message \<open>m\<close>, the table and the in-memory list are as before, and the error flag holds
  \<open>m\<close> (or the handler's own text, for an empty message).
\<close>

theorem toggleVote_complement:
  assumes uuid: "gen (uuid_draws s) \<noteq> []"
      and who: "voter = fst (getCurrentVoterId gen s)"
      and agree: "(votes_of (t_id ticket) voter (votes s) = 0) =
                  (votes_of (t_id ticket) voter (votes_table s) = 0)"
  shows "let before = votes_of (t_id ticket) voter (votes_table s);
             s' = toggleVote gen wfault new_id rfault ticket s
         in (case wfault of
               None \<Rightarrow>
                 votes_of (t_id ticket) voter (votes_table s') = (if before = 0 then 1 else 0) \<and>
                 (rfault = None \<longrightarrow> votes s' = votes_table s')
             | Some m \<Rightarrow>
                 votes_table s' = votes_table s \<and> votes s' = votes s \<and>
                 error s' = Some (or_else m (if before = 0 then ''Failed to add vote.''
                                             else ''Failed to remove vote.'')))"
proof -
  obtain s1 where g: "getCurrentVoterId gen s = (voter, s1)"
    using who by (cases "getCurrentVoterId gen s") simp
  from getCurrentVoterId_again[OF g uuid] have again: "getCurrentVoterId gen s1 = (voter, s1)" .
  note fr = getCurrentVoterId_frame[OF g]
  have hv: "hasVoted gen ticket s1 = (votes_of (t_id ticket) voter (votes s) \<noteq> 0, s1)"
    by (simp add: hasVoted_def again list_ex_votes_of fr)
  show ?thesis
  proof (cases "votes_of (t_id ticket) voter (votes s) = 0")
    case True
    with agree have "votes_of (t_id ticket) voter (votes_table s) = 0" by simp
    with True show ?thesis
      by (cases rfault; cases wfault)
        (simp_all add: toggleVote_def g hv Let_def addVote_def loadVotes_table loadVotes_ok fr
          votes_of_def)
  next
    case False
    with agree have "votes_of (t_id ticket) voter (votes_table s) \<noteq> 0" by simp
    with False show ?thesis
      by (cases rfault; cases wfault)
        (simp_all add: toggleVote_def g hv Let_def removeVote_def loadVotes_table loadVotes_ok
          fr votes_of_def)
  qed
qed

theorem toggleVote_complement_witness:
  "ex_gen (uuid_draws ex_board) \<noteq> [] \<and>
   ''u1'' = fst (getCurrentVoterId ex_gen ex_board) \<and>
   ((votes_of (t_id ticket_c) ''u1'' (votes ex_board) = 0) =
    (votes_of (t_id ticket_c) ''u1'' (votes_table ex_board) = 0)) \<and>
   votes_of (t_id ticket_c) ''u1'' (votes_table ex_board) = 1 \<and>
   votes_of (t_id ticket_c) ''u1''
     (votes_table (toggleVote ex_gen None ''v4'' None ticket_c ex_board)) = 0 \<and>
   votes (toggleVote ex_gen None ''v4'' None ticket_c ex_board) =
     votes_table (toggleVote ex_gen None ''v4'' None ticket_c ex_board)"
proof -
  have h1: "ex_gen (uuid_draws ex_board) \<noteq> []"
    by (simp add: ex_board_def ex_votes_def ex_gen_def ticket_a_def ticket_b_def
        ticket_c_def mk_ticket_def)
  have h2: "''u1'' = fst (getCurrentVoterId ex_gen ex_board)"
    by (simp add: ex_board_def ex_votes_def ex_gen_def ticket_a_def ticket_b_def
        ticket_c_def mk_ticket_def getCurrentVoterId_def)
  have before: "votes_of (t_id ticket_c) ''u1'' (votes_table ex_board) = 1"
    by (simp add: ex_board_def ex_votes_def ex_gen_def ticket_a_def ticket_b_def
        ticket_c_def mk_ticket_def votes_of_def)
  have h3: "(votes_of (t_id ticket_c) ''u1'' (votes ex_board) = 0) =
      (votes_of (t_id ticket_c) ''u1'' (votes_table ex_board) = 0)"
    by (simp add: ex_board_def ex_votes_def ex_gen_def ticket_a_def ticket_b_def
        ticket_c_def mk_ticket_def votes_of_def)
  from toggleVote_complement[where gen = ex_gen and s = ex_board and voter = "''u1''"
      and ticket = ticket_c and wfault = None and new_id = "''v4''" and rfault = None]
    before h1 h2 h3
  show ?thesis
    by (simp add: Let_def)
qed

text \<open>
  C1 as it is written fails when the remote write fails: voter \<open>u1\<close> has no vote
  on ticket \<open>a\<close>, in memory or in the table; the insert is refused; after \<open>toggleVote\<close>
  there is still no such vote where the claim wants exactly one.
\<close>

theorem toggleVote_failed_write_counterexample:
  "fst (getCurrentVoterId ex_gen ex_board) = ''u1'' \<and>
   votes_of (t_id ticket_a) ''u1'' (votes ex_board) = 0 \<and>
   votes_of (t_id ticket_a) ''u1'' (votes_table ex_board) = 0 \<and>
   votes_of (t_id ticket_a) ''u1''
     (votes_table (toggleVote ex_gen (Some ''offline'') ''v4'' None ticket_a ex_board)) = 0 \<and>
   votes_of (t_id ticket_a) ''u1''
     (votes (toggleVote ex_gen (Some ''offline'') ''v4'' None ticket_a ex_board)) = 0 \<and>
   error (toggleVote ex_gen (Some ''offline'') ''v4'' None ticket_a ex_board) = Some ''offline''"
  by (simp add: ex_board_def ex_votes_def ex_gen_def ticket_a_def ticket_b_def ticket_c_def
      mk_ticket_def toggleVote_def getCurrentVoterId_def hasVoted_def addVote_def
      votes_of_def or_else_def Let_def)

subsection \<open>Display order\<close>

lemma mset_insert_sorted: "mset (insert_sorted cmp x xs) = add_mset x (mset xs)"
  by (induction xs) auto

lemma mset_array_sort: "mset (array_sort cmp xs) = mset xs"
  by (induction xs) (auto simp: mset_insert_sorted)

lemma set_insert_sorted: "set (insert_sorted cmp x xs) = insert x (set xs)"
  by (induction xs) auto

lemma sorted_insert_sorted:
  fixes key :: "'a \<Rightarrow> nat"
  assumes cmp: "\<And>a b. (cmp a b \<le> 0) = (key b \<le> key a)"
      and "sorted_wrt (\<lambda>a b. key b \<le> key a) xs"
  shows "sorted_wrt (\<lambda>a b. key b \<le> key a) (insert_sorted cmp x xs)"
  using assms(2)
proof (induction xs)
  case Nil
  show ?case by simp
next
  case (Cons y ys)
  show ?case
  proof (cases "cmp x y \<le> 0")
    case True
    with cmp have "key y \<le> key x" by simp
    with Cons.prems True show ?thesis by fastforce
  next
    case False
    with cmp have "key x \<le> key y" by (simp add: not_le)
    with Cons False show ?thesis
      by (auto simp: set_insert_sorted)
  qed
qed

lemma sorted_array_sort:
  fixes key :: "'a \<Rightarrow> nat"
  assumes "\<And>a b. (cmp a b \<le> 0) = (key b \<le> key a)"
  shows "sorted_wrt (\<lambda>a b. key b \<le> key a) (array_sort cmp xs)"
  by (induction xs) (auto intro: sorted_insert_sorted[OF assms])

lemma vote_cmp_key:
  "(vote_cmp s a b \<le> 0) =
     (length (filter (\<lambda>v. v_ticket_id v = t_id b) (votes s)) \<le>
      length (filter (\<lambda>v. v_ticket_id v = t_id a) (votes s)))"
  by (simp add: vote_cmp_def getVoteCount_def)

text \<open>
  C5. The vote count of a ticket is the number of entries of the votes list whose
  \<open>ticket_id\<close> is the ticket's id. For any votes list and any bucket of a column, the
  sequence of cards that rendering the column draws is the bucket sorted by the
  comparator: it is non-increasing in that number, it is a permutation of the bucket
  (the same tickets, ids included, each as often as before), and every ticket in it
  carries the \<open>order\<close> it had. Rendering issues no remote call and leaves the votes
  alone, so no stored \<open>order\<close> changes either.
\<close>

theorem render_column_by_votes:
  assumes "ticketsByColumn s title = Some bucket"
  shows "fst (render_column title s) = array_sort (vote_cmp s) bucket \<and>
         sorted_wrt
           (\<lambda>a b. length (filter (\<lambda>v. v_ticket_id v = t_id b) (votes s)) \<le>
                   length (filter (\<lambda>v. v_ticket_id v = t_id a) (votes s)))
           (fst (render_column title s)) \<and>
         (\<forall>t. getVoteCount s t = length (filter (\<lambda>v. v_ticket_id v = t_id t) (votes s))) \<and>
         mset (fst (render_column title s)) = mset bucket \<and>
         mset (map t_id (fst (render_column title s))) = mset (map t_id bucket) \<and>
         mset (map (\<lambda>t. (t_id t, t_order t)) (fst (render_column title s))) =
           mset (map (\<lambda>t. (t_id t, t_order t)) bucket) \<and>
         calls (snd (render_column title s)) = calls s \<and>
         votes (snd (render_column title s)) = votes s"
proof -
  have shown: "fst (render_column title s) = array_sort (vote_cmp s) bucket"
    using assms by (cases bucket) (simp_all add: render_column_def Let_def)
  have "sorted_wrt
      (\<lambda>a b. length (filter (\<lambda>v. v_ticket_id v = t_id b) (votes s)) \<le>
              length (filter (\<lambda>v. v_ticket_id v = t_id a) (votes s)))
      (array_sort (vote_cmp s) bucket)"
    by (rule sorted_array_sort[where cmp = "vote_cmp s"
          and key = "\<lambda>t. length (filter (\<lambda>v. v_ticket_id v = t_id t) (votes s))"])
      (rule vote_cmp_key)
  moreover have "getVoteCount s t = length (filter (\<lambda>v. v_ticket_id v = t_id t) (votes s))"
    for t
    by (simp add: getVoteCount_def)
  moreover have perm: "mset (array_sort (vote_cmp s) bucket) = mset bucket"
    by (rule mset_array_sort)
  moreover have "mset (map f (array_sort (vote_cmp s) bucket)) = mset (map f bucket)" for f :: "Ticket \<Rightarrow> 'b"
    using perm by (metis mset_map)
  moreover have "calls (snd (render_column title s)) = calls s \<and>
      votes (snd (render_column title s)) = votes s"
    using assms by (simp add: render_column_def Let_def)
  ultimately show ?thesis using shown by simp
qed

text \<open>
  On the board \<open>voted_board\<close> the column Good holds \<open>a\<close>, \<open>c\<close>, \<open>d\<close> (of \<open>order\<close> 1, 2, 3)
  and the votes list holds no vote on \<open>a\<close>, three on \<open>c\<close> and one on \<open>d\<close>: the cards are
  drawn in the sequence \<open>c\<close>, \<open>d\<close>, \<open>a\<close>, which is neither the fetch order nor its reverse.
\<close>

theorem render_column_by_votes_witness:
  "ticketsByColumn voted_board ''Good'' = Some [ticket_a, ticket_c, ticket_d] \<and>
   map t_order [ticket_a, ticket_c, ticket_d] = [1, 2, 3] \<and>
   length (filter (\<lambda>v. v_ticket_id v = t_id ticket_a) (votes voted_board)) = 0 \<and>
   length (filter (\<lambda>v. v_ticket_id v = t_id ticket_c) (votes voted_board)) = 3 \<and>
   length (filter (\<lambda>v. v_ticket_id v = t_id ticket_d) (votes voted_board)) = 1 \<and>
   fst (render_column ''Good'' voted_board) = [ticket_c, ticket_d, ticket_a] \<and>
   map t_order (fst (render_column ''Good'' voted_board)) = [2, 3, 1] \<and>
   mset (fst (render_column ''Good'' voted_board)) = mset [ticket_a, ticket_c, ticket_d]"
proof -
  have h: "ticketsByColumn voted_board ''Good'' = Some [ticket_a, ticket_c, ticket_d]"
    by (simp add: voted_board_def)
  have orders: "map t_order [ticket_a, ticket_c, ticket_d] = [1, 2, 3]"
    by (simp add: ticket_a_def ticket_c_def ticket_d_def mk_ticket_def)
  have counts:
    "length (filter (\<lambda>v. v_ticket_id v = t_id ticket_a) (votes voted_board)) = 0"
    "length (filter (\<lambda>v. v_ticket_id v = t_id ticket_c) (votes voted_board)) = 3"
    "length (filter (\<lambda>v. v_ticket_id v = t_id ticket_d) (votes voted_board)) = 1"
    by (simp_all add: voted_board_def ticket_a_def ticket_c_def ticket_d_def mk_ticket_def)
  note inst = render_column_by_votes[OF h]
  from inst have key:
    "\<And>t. getVoteCount voted_board t =
       length (filter (\<lambda>v. v_ticket_id v = t_id t) (votes voted_board))"
    by blast
  have "array_sort (vote_cmp voted_board) [ticket_a, ticket_c, ticket_d] =
      [ticket_c, ticket_d, ticket_a]"
    by (simp add: vote_cmp_def key counts)
  with inst have shown: "fst (render_column ''Good'' voted_board) = [ticket_c, ticket_d, ticket_a]"
    by simp
  have "map t_order (fst (render_column ''Good'' voted_board)) = [2, 3, 1]"
    by (simp add: shown ticket_a_def ticket_c_def ticket_d_def mk_ticket_def)
  moreover from inst have
    "mset (fst (render_column ''Good'' voted_board)) = mset [ticket_a, ticket_c, ticket_d]"
    by blast
  ultimately show ?thesis
    using h orders counts shown by blast
qed

subsection \<open>Adding a ticket\<close>




subsection \<open>Starting an edit\<close>




text \<open>\<^verbatim>\<open>startEdit\<close> of the store module has the same guard and the same assignments.\<close>

lemma store_startEdit_same:
  "(st_editingTicketId s = Some (t_id a) \<longrightarrow> store_startEdit a s = s) \<and>
   (st_editingTicketId s \<noteq> Some (t_id b) \<longrightarrow>
      store_startEdit b s =
        s\<lparr>st_editingTicketId := Some (t_id b), st_editingTitle := t_title b,
          st_editingContent := content_or_empty b\<rparr>)"
  by (simp add: store_startEdit_def)

subsection \<open>Removing a ticket\<close>

text \<open>
  C10. The assignment \<open>removeTicket\<close> makes before its remote delete. When the
  ticket's column has no bucket, indexing it throws and nothing is assigned. When it has
  the bucket \<open>b\<close>, the step returns a state in which every other column has the bucket
  it had, the ticket's column has \<open>b\<close> without the tickets of that id, the others in
  the order they had in \<open>b\<close>, and nothing but \<open>ticketsByColumn\<close> differs; and when the
  remote delete then succeeds, that state with the delete logged is what
  \<open>removeTicket\<close> returns.
\<close>

theorem removeTicket_optimistic_frame:
  "case ticketsByColumn s (t_column ticket) of
     None \<Rightarrow> removeTicket_optimistic ticket s = Inl TypeError
   | Some b \<Rightarrow>
       (\<exists>s'. removeTicket_optimistic ticket s = Inr s' \<and>
          (\<forall>c. c \<noteq> t_column ticket \<longrightarrow> ticketsByColumn s' c = ticketsByColumn s c) \<and>
          ticketsByColumn s' (t_column ticket) = Some (filter (\<lambda>t. t_id t \<noteq> t_id ticket) b) \<and>
          (\<forall>t\<in>set b. t_id t \<noteq> t_id ticket \<longrightarrow>
             t \<in> set (filter (\<lambda>t. t_id t \<noteq> t_id ticket) b)) \<and>
          s' = s\<lparr>ticketsByColumn := ticketsByColumn s'\<rparr> \<and>
          removeTicket None response ticket s =
            Inr (s'\<lparr>calls := calls s @ [DeleteTicket (t_id ticket)]\<rparr>))"
  by (auto simp: removeTicket_optimistic_def removeTicket_def Let_def split: option.splits)

theorem removeTicket_optimistic_frame_witness:
  "ticketsByColumn ex_board (t_column ticket_a) = Some [ticket_a, ticket_c] \<and>
   (\<exists>s'. removeTicket_optimistic ticket_a ex_board = Inr s' \<and>
      ticketsByColumn s' ''Good'' = Some [ticket_c] \<and>
      ticketsByColumn s' ''Ideas'' = Some [ticket_b] \<and>
      ticketsByColumn s' ''Bad'' = None)"
proof -
  have h: "ticketsByColumn ex_board (t_column ticket_a) = Some [ticket_a, ticket_c]"
    by (simp add: ex_board_def ex_votes_def ticket_a_def ticket_b_def ticket_c_def mk_ticket_def)
  have cols: "t_column ticket_a = ''Good''"
    by (simp add: ex_board_def ex_votes_def ticket_a_def ticket_b_def ticket_c_def mk_ticket_def)
  from removeTicket_optimistic_frame[where s = ex_board and ticket = ticket_a and response = "Inr []"] h
  obtain s' where r: "removeTicket_optimistic ticket_a ex_board = Inr s'"
    and others: "\<And>c. c \<noteq> t_column ticket_a \<Longrightarrow> ticketsByColumn s' c = ticketsByColumn ex_board c"
    and own: "ticketsByColumn s' (t_column ticket_a) =
                Some (filter (\<lambda>t. t_id t \<noteq> t_id ticket_a) [ticket_a, ticket_c])"
    by auto
  have "ticketsByColumn s' ''Good'' = Some [ticket_c]"
    using own by (simp add: ex_board_def ex_votes_def ticket_a_def ticket_b_def ticket_c_def
        mk_ticket_def)
  moreover have "ticketsByColumn s' ''Ideas'' = Some [ticket_b]"
    using others[of "''Ideas''"] by (simp add: ex_board_def ex_votes_def ticket_a_def ticket_b_def ticket_c_def mk_ticket_def)
  moreover have "ticketsByColumn s' ''Bad'' = None"
    using others[of "''Bad''"] by (simp add: ex_board_def ex_votes_def ticket_a_def ticket_b_def ticket_c_def mk_ticket_def)
  ultimately show ?thesis using h r by blast
qed

text \<open>\<^verbatim>\<open>removeTicket\<close> of the store module makes the same assignment.\<close>

lemma store_removeTicket_optimistic_same:
  assumes "st_ticketsByColumn s (t_column ticket) = Some b"
  shows "\<exists>s'. store_removeTicket_optimistic ticket s = Inr s' \<and>
           (\<forall>c. c \<noteq> t_column ticket \<longrightarrow> st_ticketsByColumn s' c = st_ticketsByColumn s c) \<and>
           st_ticketsByColumn s' (t_column ticket) =
             Some (filter (\<lambda>t. t_id t \<noteq> t_id ticket) b)"
  using assms by (simp add: store_removeTicket_optimistic_def)

subsection \<open>Voter identity\<close>

lemma getOrCreateVoterId_stored:
  "localStorage s ''voter_id'' = Some i \<Longrightarrow> i \<noteq> [] \<Longrightarrow> getOrCreateVoterId gen s = (i, s)"
  by (simp add: getOrCreateVoterId_def)

lemma getCurrentVoterId_browser:
  "window_defined s \<Longrightarrow> getCurrentVoterId gen s = getOrCreateVoterId gen s"
  by (simp add: getCurrentVoterId_def getOrCreateVoterId_def)

lemma call_times_fixed:
  "getter s = (i, s) \<Longrightarrow> call_times n getter s = (replicate n i, s)"
  by (induction n) simp_all

text \<open>
  C7. In a profile whose storage has no \<open>voter_id\<close>, and with a generated id that is not
  the empty string: the first call of \<open>getOrCreateVoterId\<close> returns the generated id
  \<open>u\<close> and leaves a state \<open>s1\<close> that differs from the one before in the stored \<open>voter_id\<close>,
  now \<open>u\<close>, and in the count of draws; any number of calls after it return \<open>u\<close> each and
  leave \<open>s1\<close> as it is, storage included. So a run of calls that starts with the first
  one returns \<open>u\<close> every time. In a browser (\<^verbatim>\<open>window\<close> defined) \<open>getCurrentVoterId\<close> of the
  page does the same.
\<close>

theorem voter_id_generated_once:
  assumes fresh: "localStorage s ''voter_id'' = None"
      and uuid: "gen (uuid_draws s) \<noteq> []"
  shows "let u = gen (uuid_draws s);
             s1 = s\<lparr>uuid_draws := Suc (uuid_draws s),
                    localStorage := (localStorage s)(''voter_id'' \<mapsto> u)\<rparr>
         in getOrCreateVoterId gen s = (u, s1) \<and>
            localStorage s1 ''voter_id'' = Some u \<and>
            call_times n (getOrCreateVoterId gen) s1 = (replicate n u, s1) \<and>
            call_times (Suc n) (getOrCreateVoterId gen) s = (replicate (Suc n) u, s1) \<and>
            (window_defined s \<longrightarrow>
               getCurrentVoterId gen s = (u, s1) \<and>
               call_times n (getCurrentVoterId gen) s1 = (replicate n u, s1) \<and>
               call_times (Suc n) (getCurrentVoterId gen) s = (replicate (Suc n) u, s1))"
proof -
  define u where "u = gen (uuid_draws s)"
  define s1 where "s1 = s\<lparr>uuid_draws := Suc (uuid_draws s),
                          localStorage := (localStorage s)(''voter_id'' \<mapsto> u)\<rparr>"
  have first: "getOrCreateVoterId gen s = (u, s1)"
    using fresh
    by (simp add: getOrCreateVoterId_def create_voter_id_def generateUniqueId_def u_def s1_def)
  have stored: "localStorage s1 ''voter_id'' = Some u"
    by (simp add: s1_def)
  have "u \<noteq> []"
    using uuid by (simp add: u_def)
  with stored have again: "getOrCreateVoterId gen s1 = (u, s1)"
    by (rule getOrCreateVoterId_stored)
  have later: "call_times n (getOrCreateVoterId gen) s1 = (replicate n u, s1)"
    using again by (rule call_times_fixed)
  have run: "call_times (Suc n) (getOrCreateVoterId gen) s = (replicate (Suc n) u, s1)"
    by (simp add: first later)
  have browser: "getCurrentVoterId gen s = (u, s1) \<and>
      call_times n (getCurrentVoterId gen) s1 = (replicate n u, s1) \<and>
      call_times (Suc n) (getCurrentVoterId gen) s = (replicate (Suc n) u, s1)"
    if w: "window_defined s"
  proof -
    from w have w1: "window_defined s1"
      by (simp add: s1_def)
    have f: "getCurrentVoterId gen s = (u, s1)"
      using first w by (simp add: getCurrentVoterId_browser)
    have a: "getCurrentVoterId gen s1 = (u, s1)"
      using again w1 by (simp add: getCurrentVoterId_browser)
    from a have l: "call_times n (getCurrentVoterId gen) s1 = (replicate n u, s1)"
      by (rule call_times_fixed)
    from f l show ?thesis by simp
  qed
  show ?thesis
    using first stored later run browser
    unfolding Let_def u_def[symmetric] s1_def[symmetric]
    by blast
qed

theorem voter_id_generated_once_witness:
  "localStorage (ex_board\<lparr>localStorage := Map.empty\<rparr>) ''voter_id'' = None \<and>
   ex_gen (uuid_draws (ex_board\<lparr>localStorage := Map.empty\<rparr>)) \<noteq> [] \<and>
   fst (call_times 3 (getOrCreateVoterId ex_gen) (ex_board\<lparr>localStorage := Map.empty\<rparr>)) =
     [''7d9f'', ''7d9f'', ''7d9f''] \<and>
   localStorage
     (snd (call_times 3 (getOrCreateVoterId ex_gen) (ex_board\<lparr>localStorage := Map.empty\<rparr>)))
     ''voter_id'' = Some ''7d9f''"
proof -
  let ?s = "ex_board\<lparr>localStorage := Map.empty\<rparr>"
  have h1: "localStorage ?s ''voter_id'' = None"
    by simp
  have h2: "ex_gen (uuid_draws ?s) \<noteq> []"
    by (simp add: ex_board_def ex_votes_def ex_gen_def ticket_a_def ticket_b_def
        ticket_c_def mk_ticket_def)
  have three: "(3::nat) = Suc 2"
    by simp
  from voter_id_generated_once[where gen = ex_gen and s = ?s and n = 2] h1 h2
  show ?thesis
    unfolding three by (simp add: Let_def ex_gen_def numeral_2_eq_2)
qed

end
